theory Spec2Isabelle
  imports Complex_Main "HOL-Library.Word"
begin

unbundle bit_operations_syntax

section \<open>The X11 window of shiny's x11driver (window.go)\<close>

text \<open>
  A shallow embedding of \<^verbatim>\<open>shiny/driver/x11driver/window.go\<close>. The X11 connection is
  the list of requests written to it, the X server is an oracle that answers a request
  given everything sent so far, Go's \<^verbatim>\<open>error\<close> results are \<open>error option\<close>
  (\<open>None\<close> is \<^verbatim>\<open>nil\<close>), and the event queue embedded in the window is the list of
  events not yet consumed.
\<close>

subsection \<open>Protocol data\<close>

type_synonym Window = "32 word"
type_synonym Gcontext = "32 word"
type_synonym Picture = "32 word"
type_synonym Atom = "32 word"
type_synonym XCursor = "32 word"
type_synonym byte = "8 word"
type_synonym int16 = "16 word"
type_synonym uint16 = "16 word"
type_synonym uint32 = "32 word"

text \<open>Constants of the X11 core protocol, as package xproto names them.\<close>

definition PropModeReplace :: byte where
  "PropModeReplace = 0"

definition CwCursor :: uint32 where
  "CwCursor = 16384"

definition TimeCurrentTime :: uint32 where
  "TimeCurrentTime = 0"

definition EventMaskSubstructureNotify :: uint32 where
  "EventMaskSubstructureNotify = 524288"

definition EventMaskSubstructureRedirect :: uint32 where
  "EventMaskSubstructureRedirect = 1048576"

text \<open>
  \<^verbatim>\<open>xproto.ClientMessageEvent\<close> with its 32-bit data words. The request that carries it
  keeps the event as a value; its wire encoding (\<^verbatim>\<open>ev.Bytes()\<close>) belongs to the
  protocol library.
\<close>

record ClientMessageEvent =
  Format :: byte
  Window :: Window
  Type :: Atom
  Data32 :: "uint32 list"

text \<open>The requests window.go writes to the connection, with their arguments in order.\<close>

datatype request =
    FreePicture Picture
  | FreeGC Gcontext
  | DestroyWindow Window
  | Sync
  | ChangePropertyChecked byte Window Atom Atom byte uint32 "byte list"
  | ChangeWindowAttributes Window uint32 "uint32 list"
  | GetInputFocus
  | TranslateCoordinates Window Window int16 int16
  | WarpPointerChecked Window Window int16 int16 uint16 uint16 int16 int16
  | SendEventChecked bool Window uint32 ClientMessageEvent
  | MapWindowChecked Window

text \<open>An error value of the connection; the number stands for whatever the server reported.\<close>

datatype error = XError nat

text \<open>
  The X server as seen from one connection. Each field answers the request that stands
  last in the list of requests sent so far: the reply of an input-focus query (the focus
  window), the reply of a coordinate translation (\<open>DstX\<close>, \<open>DstY\<close>), and the result of
  \<^verbatim>\<open>Check()\<close> on a checked request.
\<close>

record XServer =
  GetInputFocusReply :: "request list \<Rightarrow> error + Window"
  TranslateCoordinatesReply :: "request list \<Rightarrow> error + (int16 \<times> int16)"
  Check :: "request list \<Rightarrow> error option"

text \<open>
  The connection \<^verbatim>\<open>w.s.xc\<close>: the root window of the default screen of its setup
  information, and the requests written so far.
\<close>

record XConn =
  DefaultScreenRoot :: Window
  sent :: "request list"

definition send :: "request \<Rightarrow> XConn \<Rightarrow> XConn" where
  "send r xc = xc\<lparr>sent := sent xc @ [r]\<rparr>"

subsection \<open>Events\<close>

text \<open>
  \<^verbatim>\<open>mouse.Button\<close> is a signed 32-bit number, the wheel buttons are the negative ones;
  \<^verbatim>\<open>mouse.Direction\<close> is a byte.
\<close>

type_synonym Button = "32 word"
type_synonym Direction = byte

definition ButtonWheelUp :: Button where
  "ButtonWheelUp = - 1"

definition ButtonWheelDown :: Button where
  "ButtonWheelDown = - 2"

definition ButtonWheelLeft :: Button where
  "ButtonWheelLeft = - 3"

definition ButtonWheelRight :: Button where
  "ButtonWheelRight = - 4"

definition IsWheel :: "Button \<Rightarrow> bool" where
  "IsWheel b = (sint b < 0)"

definition DirNone :: Direction where
  "DirNone = 0"

definition DirPress :: Direction where
  "DirPress = 1"

definition DirRelease :: Direction where
  "DirRelease = 2"

definition DirStep :: Direction where
  "DirStep = 3"

text \<open>
  The fields of \<^verbatim>\<open>xproto.ConfigureNotifyEvent\<close> the window reads: a signed position and
  an unsigned size, 16 bits each.
\<close>

record ConfigureNotifyEvent =
  X :: int16
  Y :: int16
  Width :: uint16
  Height :: uint16

text \<open>
  \<^verbatim>\<open>size.Event\<close>. The pixel sizes are Go ints; the sizes in points and the scale are
  float32 values. The only floats the window computes are conversions of 16-bit
  integers, which float32 holds exactly, so they are modelled as reals.
\<close>

record size_Event =
  WidthPx :: int
  HeightPx :: int
  WidthPt :: real
  HeightPt :: real
  PixelsPerPt :: real

record mouse_Event =
  X :: real
  Y :: real
  Button :: Button
  Modifiers :: uint32
  Direction :: Direction

text \<open>
  What the window's queue holds: size, paint and mouse events, and the lifecycle events
  (from stage, to stage) that the lifecycle object sends into the same queue.
\<close>

datatype event =
    Size size_Event
  | Paint
  | Mouse mouse_Event
  | Lifecycle uint32 uint32

text \<open>
  The calls made on \<^verbatim>\<open>w.lifecycler\<close>. The lifecycle object belongs to another
  package; it is modelled by the history of calls made on it, and what
  \<^verbatim>\<open>SendEvent\<close> sends into the window is a parameter that may depend on that
  whole history.
\<close>

datatype lifecycler_call =
    SetDead bool
  | SetFocused bool
  | SetVisible bool
  | SendEvent

subsection \<open>The window\<close>

text \<open>
  The fields of \<^verbatim>\<open>screenImpl\<close> that window.go reads. \<^verbatim>\<open>screen.Cursor\<close>, the key of
  the cursor cache, is an integer token.
\<close>

record screenImpl =
  xsiRoot :: Window
  atomNetActiveWindow :: Atom
  atomNetWMName :: Atom
  atomUTF8String :: Atom
  pixelsPerPt :: real
  cursorCache :: "int \<rightharpoonup> XCursor"

record windowImpl =
  s :: screenImpl
  xw :: Window
  xg :: Gcontext
  xp :: Picture
  Deque :: "event list"
  width :: int
  height :: int
  lifecycler :: "lifecycler_call list"
  released :: bool

text \<open>
  Modelled from the spec: \<^verbatim>\<open>event.Deque.Send\<close> is not part of window.go; the spec
  describes the queue as an ordered FIFO sequence to which producers add events, so
  sending an event puts it at the end.
\<close>

definition Send :: "event \<Rightarrow> windowImpl \<Rightarrow> windowImpl" where
  "Send e w = w\<lparr>Deque := Deque w @ [e]\<rparr>"

subsection \<open>Release\<close>

text \<open>
  One call of \<^verbatim>\<open>Release\<close> run on its own: read and set the flag, return early when it
  was set, otherwise free the picture, the graphics context and the window.
\<close>

definition Release :: "windowImpl \<times> XConn \<Rightarrow> windowImpl \<times> XConn" where
  "Release = (\<lambda>(w, xc).
     let released0 = released w;
         w = w\<lparr>released := True\<rparr>
     in if released0 then (w, xc)
        else (w, send (DestroyWindow (xw w)) (send (FreeGC (xg w)) (send (FreePicture (xp w)) xc))))"

subsection \<open>Drawing flow control, title and cursor\<close>

definition Publish :: "XConn \<Rightarrow> XConn" where
  "Publish xc = send Sync xc"

text \<open>
  A Go string is a sequence of bytes and \<^verbatim>\<open>[]byte(title)\<close> is that sequence; the length
  is converted to \<^verbatim>\<open>uint32\<close>.
\<close>

definition SetTitle :: "XServer \<Rightarrow> windowImpl \<Rightarrow> string \<Rightarrow> XConn \<Rightarrow> error option \<times> XConn" where
  "SetTitle srv w title xc =
     (let buf = map of_char title;
          xc = send (ChangePropertyChecked PropModeReplace (xw w) (atomNetWMName (s w))
                       (atomUTF8String (s w)) 8 (of_nat (length buf)) buf) xc
      in (Check srv (sent xc), xc))"

definition SetCursor :: "windowImpl \<Rightarrow> int \<Rightarrow> XConn \<Rightarrow> error option \<times> XConn" where
  "SetCursor w cursor xc =
     (case cursorCache (s w) cursor of
        Some cursorId \<Rightarrow> (None, send (ChangeWindowAttributes (xw w) CwCursor [cursorId]) xc)
      | None \<Rightarrow> (None, xc))"

subsection \<open>Pointer warp, raise and position\<close>

text \<open>
  An \<^verbatim>\<open>image.Point\<close> is a pair of Go ints. The conversions \<^verbatim>\<open>int16(p.X)\<close> keep the low
  16 bits, and \<^verbatim>\<open>int(tcr.DstX)\<close> reads a 16-bit value as a signed number. The function
  returns the point together with the error, the zero point when the reply failed.
\<close>

definition translateToScreen ::
    "XServer \<Rightarrow> windowImpl \<Rightarrow> Window \<Rightarrow> int \<times> int \<Rightarrow> XConn \<Rightarrow> ((int \<times> int) \<times> error option) \<times> XConn" where
  "translateToScreen srv w screenRoot p xc =
     (let xc = send (TranslateCoordinates (xw w) screenRoot (word_of_int (fst p)) (word_of_int (snd p))) xc
      in case TranslateCoordinatesReply srv (sent xc) of
           Inl err \<Rightarrow> (((0, 0), Some err), xc)
         | Inr (dstX, dstY) \<Rightarrow> (((sint dstX, sint dstY), None), xc))"

definition WarpMouse :: "XServer \<Rightarrow> windowImpl \<Rightarrow> int \<times> int \<Rightarrow> XConn \<Rightarrow> error option \<times> XConn" where
  "WarpMouse srv w p xc =
     (let xc = send GetInputFocus xc
      in case GetInputFocusReply srv (sent xc) of
           Inl err \<Rightarrow> (Some err, xc)
         | Inr focus \<Rightarrow>
             if focus \<noteq> xw w then (None, xc)
             else
               (let screenRoot = DefaultScreenRoot xc;
                    ((tp, err), xc) = translateToScreen srv w screenRoot p xc
                in (case err of
                     Some e \<Rightarrow> (Some e, xc)
                   | None \<Rightarrow>
                       (let xc = send (WarpPointerChecked 0 screenRoot 0 0 0 0
                                         (word_of_int (fst tp)) (word_of_int (snd tp))) xc
                        in (Check srv (sent xc), xc)))))"

text \<open>
  \<^verbatim>\<open>Raise\<close> calls \<^verbatim>\<open>Check()\<close> on both of its requests and drops both results.
\<close>

definition Raise :: "XServer \<Rightarrow> windowImpl \<Rightarrow> XConn \<Rightarrow> error option \<times> XConn" where
  "Raise srv w xc =
     (let screenRoot = DefaultScreenRoot xc;
          ev = \<lparr>Format = 32, Window = xw w, Type = atomNetActiveWindow (s w),
                Data32 = [0, TimeCurrentTime, 0, 0, 0]\<rparr>;
          xc = send (SendEventChecked False screenRoot
                       (EventMaskSubstructureRedirect OR EventMaskSubstructureNotify) ev) xc;
          dropped1 = Check srv (sent xc);
          xc = send (MapWindowChecked (xw w)) xc;
          dropped2 = Check srv (sent xc)
      in (None, xc))"

definition AbsolutePosition :: "XServer \<Rightarrow> windowImpl \<Rightarrow> XConn \<Rightarrow> (int \<times> int) \<times> XConn" where
  "AbsolutePosition srv w xc =
     (let xc = send (TranslateCoordinates (xw w) (xsiRoot (s w)) 0 0) xc
      in case TranslateCoordinatesReply srv (sent xc) of
           Inr (dstX, dstY) \<Rightarrow> ((sint dstX, sint dstY), xc)
         | Inl err \<Rightarrow> ((0, 0), xc))"

subsection \<open>Event handlers\<close>

text \<open>
  Modelled from the spec: \<^verbatim>\<open>lifecycler.State\<close> is not part of window.go; the spec gives
  it a set-visible operation and an operation that emits any resulting transition event
  into the same window. Each call is added to the history of calls, and the events of a
  \<^verbatim>\<open>SendEvent\<close> are whatever \<open>emit\<close> makes of the history, sent with \<open>Send\<close>.
\<close>

definition lifecycler_SetVisible :: "bool \<Rightarrow> windowImpl \<Rightarrow> windowImpl" where
  "lifecycler_SetVisible b w = w\<lparr>lifecycler := lifecycler w @ [SetVisible b]\<rparr>"

definition lifecycler_SendEvent ::
    "(lifecycler_call list \<Rightarrow> (uint32 \<times> uint32) list) \<Rightarrow> windowImpl \<Rightarrow> windowImpl" where
  "lifecycler_SendEvent emit w =
     (let w = w\<lparr>lifecycler := lifecycler w @ [SendEvent]\<rparr>
      in foldl (\<lambda>w (a, b). Send (Lifecycle a b) w) w (emit (lifecycler w)))"

definition handleConfigureNotify ::
    "(lifecycler_call list \<Rightarrow> (uint32 \<times> uint32) list) \<Rightarrow> windowImpl \<Rightarrow> ConfigureNotifyEvent \<Rightarrow> windowImpl" where
  "handleConfigureNotify emit w ev =
     (let w = lifecycler_SetVisible
                (sint (ConfigureNotifyEvent.X ev) + uint (Width ev) > 0 \<and>
                 sint (ConfigureNotifyEvent.Y ev) + uint (Height ev) > 0) w;
          w = lifecycler_SendEvent emit w;
          newWidth = uint (Width ev);
          newHeight = uint (Height ev)
      in if width w = newWidth \<and> height w = newHeight then w
         else
           let w = w\<lparr>width := newWidth, height := newHeight\<rparr>
           in Send (Size \<lparr>WidthPx = newWidth, HeightPx = newHeight,
                          WidthPt = real_of_int newWidth, HeightPt = real_of_int newHeight,
                          PixelsPerPt = pixelsPerPt (s w)\<rparr>) w)"

definition handleExpose :: "windowImpl \<Rightarrow> windowImpl" where
  "handleExpose w = Send Paint w"

text \<open>
  \<^verbatim>\<open>x11key.KeyModifiers\<close>, which decodes the modifier state, is a parameter. The raw
  button is a byte; \<^verbatim>\<open>float32(x)\<close> of a 16-bit integer is exact. The block for wheel
  buttons either returns (\<open>None\<close>) or goes on with the direction it has set.
\<close>

definition handleMouse ::
    "(uint16 \<Rightarrow> uint32) \<Rightarrow> windowImpl \<Rightarrow> int16 \<Rightarrow> int16 \<Rightarrow> byte \<Rightarrow> uint16 \<Rightarrow> Direction \<Rightarrow> windowImpl" where
  "handleMouse KeyModifiers w x y b state dir =
     (let btn = (ucast b :: Button);
          btn = (if btn = 4 then ButtonWheelUp
                 else if btn = 5 then ButtonWheelDown
                 else if btn = 6 then ButtonWheelLeft
                 else if btn = 7 then ButtonWheelRight
                 else btn)
      in case (if IsWheel btn then (if dir \<noteq> DirPress then None else Some DirStep)
               else Some dir) of
           None \<Rightarrow> w
         | Some dir \<Rightarrow>
             Send (Mouse \<lparr>X = real_of_int (sint x), Y = real_of_int (sint y), Button = btn,
                           Modifiers = KeyModifiers state, Direction = dir\<rparr>) w)"

subsection \<open>Concurrent calls of Release\<close>

text \<open>
  For calls that run at the same time, \<^verbatim>\<open>Release\<close> is cut into its statements. A thread
  is the statement it stands before and the value of its local variable
  \<^verbatim>\<open>released\<close> (\<open>False\<close> until it is assigned). The threads share the window, the
  mutex \<^verbatim>\<open>w.mu\<close> and the connection. A thread that waits for the mutex, or has
  returned, does not move.
\<close>

datatype label =
    L_Lock
  | L_Read
  | L_Write
  | L_Unlock
  | L_Check
  | L_FreePicture
  | L_FreeGC
  | L_DestroyWindow
  | L_Return

record shared =
  win :: windowImpl
  mu :: bool
  conn :: XConn

record config =
  threads :: "(label \<times> bool) list"
  shared :: shared

fun exec :: "label \<times> bool \<Rightarrow> shared \<Rightarrow> (label \<times> bool) \<times> shared" where
  "exec (L_Lock, r) sh = (if mu sh then ((L_Lock, r), sh) else ((L_Read, r), sh\<lparr>mu := True\<rparr>))"
| "exec (L_Read, r) sh = ((L_Write, released (win sh)), sh)"
| "exec (L_Write, r) sh = ((L_Unlock, r), sh\<lparr>win := (win sh)\<lparr>released := True\<rparr>\<rparr>)"
| "exec (L_Unlock, r) sh = ((L_Check, r), sh\<lparr>mu := False\<rparr>)"
| "exec (L_Check, r) sh = (if r then ((L_Return, r), sh) else ((L_FreePicture, r), sh))"
| "exec (L_FreePicture, r) sh =
     ((L_FreeGC, r), sh\<lparr>conn := send (FreePicture (xp (win sh))) (conn sh)\<rparr>)"
| "exec (L_FreeGC, r) sh =
     ((L_DestroyWindow, r), sh\<lparr>conn := send (FreeGC (xg (win sh))) (conn sh)\<rparr>)"
| "exec (L_DestroyWindow, r) sh =
     ((L_Return, r), sh\<lparr>conn := send (DestroyWindow (xw (win sh))) (conn sh)\<rparr>)"
| "exec (L_Return, r) sh = ((L_Return, r), sh)"

text \<open>One step of thread \<open>i\<close>, and a run under a schedule, the list of threads that move.\<close>

definition step :: "nat \<Rightarrow> config \<Rightarrow> config" where
  "step i c =
     (if i < length (threads c) then
        (let (t, sh) = exec (threads c ! i) (shared c)
         in \<lparr>threads = (threads c)[i := t], shared = sh\<rparr>)
      else c)"

definition run :: "nat list \<Rightarrow> config \<Rightarrow> config" where
  "run sched c = foldl (\<lambda>c i. step i c) c sched"

text \<open>\<open>n\<close> calls that have not started yet, on window \<open>w\<close> and connection \<open>xc\<close>.\<close>

definition calls :: "nat \<Rightarrow> windowImpl \<Rightarrow> XConn \<Rightarrow> config" where
  "calls n w xc = \<lparr>threads = replicate n (L_Lock, False), shared = \<lparr>win = w, mu = False, conn = xc\<rparr>\<rparr>"

subsection \<open>Notions used to state the properties\<close>

text \<open>The three frees of a release, in the order the source issues them.\<close>

definition frees :: "windowImpl \<Rightarrow> request list" where
  "frees w = [FreePicture (xp w), FreeGC (xg w), DestroyWindow (xw w)]"

text \<open>
  The events a handler has put into the queue: those of the queue \<open>w'\<close> after the call
  that come after the events of the queue \<open>w\<close> before it. The size events among a list
  of events, in order.
\<close>

definition enqueued :: "windowImpl \<Rightarrow> windowImpl \<Rightarrow> event list" where
  "enqueued w w' = drop (length (Deque w)) (Deque w')"

fun size_events :: "event list \<Rightarrow> size_Event list" where
  "size_events [] = []"
| "size_events (Size e # es) = e # size_events es"
| "size_events (e # es) = size_events es"

subsection \<open>The invariant of concurrent calls\<close>

text \<open>
  Counts over the threads, each 0 or a small number per thread: whether a thread holds
  the mutex, whether it has read the flag as false and not yet set it, whether it has
  set the flag after reading it as false, and how many frees it has sent.
\<close>

fun holds :: "label \<times> bool \<Rightarrow> nat" where
  "holds (L_Read, r) = 1"
| "holds (L_Write, r) = 1"
| "holds (L_Unlock, r) = 1"
| "holds (l, r) = 0"

fun pending :: "label \<times> bool \<Rightarrow> nat" where
  "pending (L_Write, r) = (if r then 0 else 1)"
| "pending (l, r) = 0"

fun won :: "label \<times> bool \<Rightarrow> nat" where
  "won (L_Lock, r) = 0"
| "won (L_Read, r) = 0"
| "won (L_Write, r) = 0"
| "won (l, r) = (if r then 0 else 1)"

fun freed :: "label \<times> bool \<Rightarrow> nat" where
  "freed (L_FreeGC, r) = (if r then 0 else 1)"
| "freed (L_DestroyWindow, r) = (if r then 0 else 2)"
| "freed (L_Return, r) = (if r then 0 else 3)"
| "freed (l, r) = 0"

text \<open>
  What the local variable of a thread can be: past the read it is true only when the flag
  is set, and a thread that stands at a free has read false.
\<close>

fun ok :: "bool \<Rightarrow> label \<times> bool \<Rightarrow> bool" where
  "ok rel (L_Lock, r) = True"
| "ok rel (L_Read, r) = True"
| "ok rel (L_FreePicture, r) = (\<not> r)"
| "ok rel (L_FreeGC, r) = (\<not> r)"
| "ok rel (L_DestroyWindow, r) = (\<not> r)"
| "ok rel (l, r) = (if r then rel else True)"

text \<open>
  The invariant, for calls that started on window \<open>w0\<close> and connection \<open>xc0\<close>: the
  mutex is held by exactly the threads between lock and unlock, at most one; one thread
  has won when the flag is set and none before; the window is \<open>w0\<close> up to the flag; and
  the connection is \<open>xc0\<close> followed by as many of the three frees as the threads have sent.
\<close>

definition release_inv :: "windowImpl \<Rightarrow> XConn \<Rightarrow> config \<Rightarrow> bool" where
  "release_inv w0 xc0 c =
     (sum_list (map holds (threads c)) = (if mu (shared c) then 1 else 0) \<and>
      sum_list (map won (threads c)) = (if released (win (shared c)) then 1 else 0) \<and>
      (if released (win (shared c)) then sum_list (map pending (threads c)) = 0 else True) \<and>
      list_all (ok (released (win (shared c)))) (threads c) \<and>
      (win (shared c))\<lparr>released := False\<rparr> = w0 \<and>
      conn (shared c) = xc0\<lparr>sent := sent xc0 @ take (sum_list (map freed (threads c))) (frees w0)\<rparr>)"

subsection \<open>Example values\<close>

text \<open>A window of 800 by 600 pixels on a screen with a scale of 1.5, for the examples.\<close>

definition example_screen :: screenImpl where
  "example_screen =
     \<lparr>xsiRoot = 1, atomNetActiveWindow = 40, atomNetWMName = 41, atomUTF8String = 42,
      pixelsPerPt = 3 / 2, cursorCache = [0 \<mapsto> 70]\<rparr>"

definition example_window :: windowImpl where
  "example_window =
     \<lparr>s = example_screen, xw = 10, xg = 11, xp = 12, Deque = [Paint], width = 800, height = 600,
      lifecycler = [], released = False\<rparr>"

definition example_conn :: XConn where
  "example_conn = \<lparr>DefaultScreenRoot = 1, sent = [Sync]\<rparr>"

text \<open>A server that rejects every request with error 3.\<close>

definition rejecting_server :: XServer where
  "rejecting_server =
     \<lparr>GetInputFocusReply = (\<lambda>rs. Inl (XError 3)),
      TranslateCoordinatesReply = (\<lambda>rs. Inl (XError 3)),
      Check = (\<lambda>rs. Some (XError 3))\<rparr>"

text \<open>
  A server that says window 10 has the focus, translates every point to (100, 200) and
  accepts every checked request.
\<close>

definition accepting_server :: XServer where
  "accepting_server =
     \<lparr>GetInputFocusReply = (\<lambda>rs. Inr 10),
      TranslateCoordinatesReply = (\<lambda>rs. Inr (100, 200)),
      Check = (\<lambda>rs. None)\<rparr>"

section \<open>Properties\<close>

subsection \<open>Configure notifications\<close>

lemma Deque_send_all:
  "Deque (foldl (\<lambda>w (a, b). Send (Lifecycle a b) w) w es) =
     Deque w @ map (\<lambda>(a, b). Lifecycle a b) es"
  by (induction es arbitrary: w) (auto simp: Send_def)

lemma fields_send_all:
  "lifecycler (foldl (\<lambda>w (a, b). Send (Lifecycle a b) w) w es) = lifecycler w"
  "width (foldl (\<lambda>w (a, b). Send (Lifecycle a b) w) w es) = width w"
  "height (foldl (\<lambda>w (a, b). Send (Lifecycle a b) w) w es) = height w"
  "s (foldl (\<lambda>w (a, b). Send (Lifecycle a b) w) w es) = s w"
  by (induction es arbitrary: w) (auto simp: Send_def)

lemma lifecycler_SendEvent_fields:
  "lifecycler (lifecycler_SendEvent emit w) = lifecycler w @ [SendEvent]"
  "width (lifecycler_SendEvent emit w) = width w"
  "height (lifecycler_SendEvent emit w) = height w"
  "s (lifecycler_SendEvent emit w) = s w"
  "Deque (lifecycler_SendEvent emit w) =
     Deque w @ map (\<lambda>(a, b). Lifecycle a b) (emit (lifecycler w @ [SendEvent]))"
  by (simp_all add: lifecycler_SendEvent_def Let_def fields_send_all Deque_send_all)

lemma size_events_append: "size_events (xs @ ys) = size_events xs @ size_events ys"
  by (induction xs rule: size_events.induct) auto

lemma size_events_Lifecycle: "size_events (map (\<lambda>(a, b). Lifecycle a b) es) = []"
  by (induction es) auto

text \<open>
  The queue after a configure notification: the queue before, the lifecycle events that
  the lifecycle object emits, and a size event when the size changed.
\<close>

lemma handleConfigureNotify_Deque:
  "Deque (handleConfigureNotify emit w ev) =
     Deque w @
     map (\<lambda>(a, b). Lifecycle a b)
       (emit (lifecycler w @
          [SetVisible (sint (ConfigureNotifyEvent.X ev) + uint (Width ev) > 0 \<and>
                       sint (ConfigureNotifyEvent.Y ev) + uint (Height ev) > 0),
           SendEvent])) @
     (if width w = uint (Width ev) \<and> height w = uint (Height ev) then []
      else [Size \<lparr>WidthPx = uint (Width ev), HeightPx = uint (Height ev),
                   WidthPt = real_of_int (uint (Width ev)),
                   HeightPt = real_of_int (uint (Height ev)),
                   PixelsPerPt = pixelsPerPt (s w)\<rparr>])"
  by (simp add: handleConfigureNotify_def Let_def lifecycler_SendEvent_fields
      lifecycler_SetVisible_def Send_def)

lemma handleConfigureNotify_enqueued:
  "enqueued w (handleConfigureNotify emit w ev) =
     map (\<lambda>(a, b). Lifecycle a b)
       (emit (lifecycler w @
          [SetVisible (sint (ConfigureNotifyEvent.X ev) + uint (Width ev) > 0 \<and>
                       sint (ConfigureNotifyEvent.Y ev) + uint (Height ev) > 0),
           SendEvent])) @
     (if width w = uint (Width ev) \<and> height w = uint (Height ev) then []
      else [Size \<lparr>WidthPx = uint (Width ev), HeightPx = uint (Height ev),
                   WidthPt = real_of_int (uint (Width ev)),
                   HeightPt = real_of_int (uint (Height ev)),
                   PixelsPerPt = pixelsPerPt (s w)\<rparr>])"
  by (simp add: enqueued_def handleConfigureNotify_Deque)

lemma handleConfigureNotify_stored:
  "(width (handleConfigureNotify emit w ev), height (handleConfigureNotify emit w ev)) =
     (if (uint (Width ev), uint (Height ev)) \<noteq> (width w, height w)
      then (uint (Width ev), uint (Height ev))
      else (width w, height w))"
  by (auto simp: handleConfigureNotify_def Let_def lifecycler_SendEvent_fields
      lifecycler_SetVisible_def Send_def)

text \<open>
  C2. A configure notification only adds events to the queue. Among the events it adds
  there is a size event exactly when the width and height of the notification differ from
  the stored pair: then there is one, with the new width and height in pixels and the
  scale of the screen, and the stored pair becomes the new one; otherwise there is none
  and the stored pair stays.
\<close>

theorem handleConfigureNotify_size_event:
  "Deque (handleConfigureNotify emit w ev) =
     Deque w @ enqueued w (handleConfigureNotify emit w ev) \<and>
   size_events (enqueued w (handleConfigureNotify emit w ev)) =
     (if (uint (Width ev), uint (Height ev)) \<noteq> (width w, height w)
      then [\<lparr>WidthPx = uint (Width ev), HeightPx = uint (Height ev),
             WidthPt = real_of_int (uint (Width ev)),
             HeightPt = real_of_int (uint (Height ev)),
             PixelsPerPt = pixelsPerPt (s w)\<rparr>]
      else []) \<and>
   (width (handleConfigureNotify emit w ev), height (handleConfigureNotify emit w ev)) =
     (if (uint (Width ev), uint (Height ev)) \<noteq> (width w, height w)
      then (uint (Width ev), uint (Height ev))
      else (width w, height w))"
proof -
  have "Deque (handleConfigureNotify emit w ev) =
      Deque w @ enqueued w (handleConfigureNotify emit w ev)"
    unfolding handleConfigureNotify_enqueued by (simp add: handleConfigureNotify_Deque)
  moreover have "size_events (enqueued w (handleConfigureNotify emit w ev)) =
     (if (uint (Width ev), uint (Height ev)) \<noteq> (width w, height w)
      then [\<lparr>WidthPx = uint (Width ev), HeightPx = uint (Height ev),
             WidthPt = real_of_int (uint (Width ev)),
             HeightPt = real_of_int (uint (Height ev)),
             PixelsPerPt = pixelsPerPt (s w)\<rparr>]
      else [])"
    unfolding handleConfigureNotify_enqueued
    by (auto simp: size_events_append size_events_Lifecycle)
  ultimately show ?thesis
    using handleConfigureNotify_stored [of emit w ev] by blast
qed

text \<open>
  The example of the spec: the window is 800 by 600 and the notification says 1024 by
  768; one size event with these pixels and the scale 1.5 is added.
\<close>

theorem handleConfigureNotify_size_event_witness:
  "size_events (enqueued example_window
     (handleConfigureNotify (\<lambda>h. []) example_window
        \<lparr>ConfigureNotifyEvent.X = 5, Y = 7, Width = 1024, Height = 768\<rparr>)) =
     [\<lparr>WidthPx = 1024, HeightPx = 768, WidthPt = 1024, HeightPt = 768, PixelsPerPt = 3 / 2\<rparr>]"
  using handleConfigureNotify_size_event [of "\<lambda>h. []" example_window
      "\<lparr>ConfigureNotifyEvent.X = 5, Y = 7, Width = 1024, Height = 768\<rparr>"]
  by (simp add: example_window_def example_screen_def)

text \<open>
  C4. On every configure notification, whether the size changed or not, the lifecycle
  object receives two more calls: set-visible with the truth value of
  \<open>x + width > 0\<close> and \<open>y + height > 0\<close> of the notification, and after it the request to
  send its event.
\<close>

theorem handleConfigureNotify_lifecycle_order:
  "lifecycler (handleConfigureNotify emit w ev) =
     lifecycler w @
       [SetVisible (sint (ConfigureNotifyEvent.X ev) + uint (Width ev) > 0 \<and>
                    sint (ConfigureNotifyEvent.Y ev) + uint (Height ev) > 0),
        SendEvent]"
  by (simp add: handleConfigureNotify_def Let_def lifecycler_SendEvent_fields
      lifecycler_SetVisible_def Send_def)

text \<open>
  A notification that keeps the 800 by 600 of the example window and places it left of the
  screen: set-visible is called with false, then the event is requested, and the queue
  stays as it was.
\<close>

theorem handleConfigureNotify_lifecycle_order_witness:
  "lifecycler (handleConfigureNotify (\<lambda>h. []) example_window
      \<lparr>ConfigureNotifyEvent.X = - 900, Y = 5, Width = 800, Height = 600\<rparr>) =
     [SetVisible False, SendEvent] \<and>
   Deque (handleConfigureNotify (\<lambda>h. []) example_window
      \<lparr>ConfigureNotifyEvent.X = - 900, Y = 5, Width = 800, Height = 600\<rparr>) = [Paint]"
  using handleConfigureNotify_lifecycle_order [of "\<lambda>h. []" example_window
      "\<lparr>ConfigureNotifyEvent.X = - 900, Y = 5, Width = 800, Height = 600\<rparr>"]
  by (simp add: example_window_def handleConfigureNotify_Deque)

text \<open>
  C9. Every size event that a configure notification adds to the queue has a width and a
  height in points equal to its width and height in pixels, and carries the scale of the
  screen, whatever that scale is.
\<close>

theorem size_event_points_equal_pixels:
  "list_all (\<lambda>e. WidthPt e = real_of_int (WidthPx e) \<and> HeightPt e = real_of_int (HeightPx e) \<and>
                 PixelsPerPt e = pixelsPerPt (s w))
     (size_events (enqueued w (handleConfigureNotify emit w ev)))"
  by (simp add: handleConfigureNotify_enqueued size_events_append size_events_Lifecycle)

text \<open>
  On the example window, whose screen has the scale 1.5, the notification of 1024 by 768
  adds a size event, and its size in points is 1024 by 768.
\<close>

theorem size_event_points_equal_pixels_witness:
  "size_events (enqueued example_window
     (handleConfigureNotify (\<lambda>h. []) example_window
        \<lparr>ConfigureNotifyEvent.X = 5, Y = 7, Width = 1024, Height = 768\<rparr>)) \<noteq> [] \<and>
   list_all (\<lambda>e. WidthPt e = 1024 \<and> HeightPt e = 768 \<and> PixelsPerPt e = 3 / 2)
     (size_events (enqueued example_window
        (handleConfigureNotify (\<lambda>h. []) example_window
           \<lparr>ConfigureNotifyEvent.X = 5, Y = 7, Width = 1024, Height = 768\<rparr>)))"
  using size_event_points_equal_pixels [of example_window "\<lambda>h. []"
      "\<lparr>ConfigureNotifyEvent.X = 5, Y = 7, Width = 1024, Height = 768\<rparr>"]
  by (simp add: handleConfigureNotify_enqueued example_window_def example_screen_def)

subsection \<open>Mouse buttons\<close>

lemma ucast_byte_button_eq: "((ucast b :: Button) = ucast c) = (b = c)" for b c :: byte
proof
  assume "(ucast b :: Button) = ucast c"
  then have "(ucast (ucast b :: Button) :: byte) = ucast (ucast c :: Button)"
    by simp
  then show "b = c"
    by (simp add: ucast_up_ucast_id is_up)
qed simp

lemma ucast_byte_button_numerals:
  "((ucast b :: Button) = 4) = (b = 4)" "((ucast b :: Button) = 5) = (b = 5)"
  "((ucast b :: Button) = 6) = (b = 6)" "((ucast b :: Button) = 7) = (b = 7)" for b :: byte
  using ucast_byte_button_eq [of b 4] ucast_byte_button_eq [of b 5]
    ucast_byte_button_eq [of b 6] ucast_byte_button_eq [of b 7]
  by simp_all

text \<open>A raw button is a byte, so as a signed 32-bit number it is never negative.\<close>

lemma not_IsWheel_ucast: "\<not> IsWheel (ucast b)" for b :: byte
proof -
  have "uint b < 2 ^ 8"
    using uint_lt2p [of b] by simp
  then have "uint b < 2 ^ 31"
    by simp
  moreover have "- (2 ^ 31) \<le> uint b"
    by (rule order_trans [OF _ uint_ge_0]) simp
  ultimately have "signed_take_bit 31 (uint b) = uint b"
    by (simp add: signed_take_bit_int_eq_self)
  then have "sint (ucast b :: Button) = uint b"
    by (simp add: signed_ucast_eq)
  then show ?thesis
    by (simp add: IsWheel_def)
qed

lemma IsWheel_consts:
  "IsWheel ButtonWheelUp" "IsWheel ButtonWheelDown"
  "IsWheel ButtonWheelLeft" "IsWheel ButtonWheelRight"
  by (simp_all add: IsWheel_def ButtonWheelUp_def ButtonWheelDown_def ButtonWheelLeft_def
      ButtonWheelRight_def)

text \<open>
  C3. A button notification with raw button 4, 5, 6 or 7 adds nothing to the queue unless
  its direction is press, and then it adds one mouse event with the button wheel-up,
  wheel-down, wheel-left or wheel-right respectively and the direction step. A
  notification with any other raw button adds one mouse event with that button and the
  direction it came with.
\<close>

theorem handleMouse_wheel_remap:
  "Deque (handleMouse KeyModifiers w x y b state dir) = Deque w @
     (if b = 4 \<or> b = 5 \<or> b = 6 \<or> b = 7 then
        (if dir = DirPress then
           [Mouse \<lparr>X = real_of_int (sint x), Y = real_of_int (sint y),
                   Button = (if b = 4 then ButtonWheelUp else if b = 5 then ButtonWheelDown
                             else if b = 6 then ButtonWheelLeft else ButtonWheelRight),
                   Modifiers = KeyModifiers state, Direction = DirStep\<rparr>]
         else [])
      else
        [Mouse \<lparr>X = real_of_int (sint x), Y = real_of_int (sint y), Button = ucast b,
                Modifiers = KeyModifiers state, Direction = dir\<rparr>])"
  by (simp add: handleMouse_def Let_def Send_def ucast_byte_button_numerals not_IsWheel_ucast
      IsWheel_consts)

text \<open>
  The example of the spec: a press of button 5 gives one wheel-down step, and the release
  of button 5 gives nothing.
\<close>

theorem handleMouse_wheel_remap_witness:
  "Deque (handleMouse (\<lambda>st. 0) example_window 3 4 5 0 DirPress) =
     [Paint, Mouse \<lparr>X = 3, Y = 4, Button = ButtonWheelDown, Modifiers = 0, Direction = DirStep\<rparr>] \<and>
   Deque (handleMouse (\<lambda>st. 0) example_window 3 4 5 0 DirRelease) = [Paint]"
  using handleMouse_wheel_remap [of "\<lambda>st. 0" example_window 3 4 5 0 DirPress]
    handleMouse_wheel_remap [of "\<lambda>st. 0" example_window 3 4 5 0 DirRelease]
  by (simp add: example_window_def DirPress_def DirRelease_def)

subsection \<open>Window operations\<close>

text \<open>
  C5. \<^verbatim>\<open>WarpMouse\<close> only adds requests to those already sent, and what it adds and
  returns is this. It first sends the input-focus query. When its reply fails, the call
  returns that error and has sent nothing else. When the reply names another window, the
  call returns success and has sent nothing else. Otherwise it sends the coordinate
  translation; when that reply fails, the call returns that error and has sent no
  pointer warp. Otherwise it sends one checked pointer warp to the translated
  coordinates and returns the result of the check of that request.
\<close>

theorem WarpMouse_focus_translate_warp:
  "take (length (sent xc)) (sent (snd (WarpMouse srv w p xc))) = sent xc \<and>
   (fst (WarpMouse srv w p xc), drop (length (sent xc)) (sent (snd (WarpMouse srv w p xc)))) =
     (let query = GetInputFocus;
          translate = TranslateCoordinates (xw w) (DefaultScreenRoot xc)
                        (word_of_int (fst p)) (word_of_int (snd p))
      in case GetInputFocusReply srv (sent xc @ [query]) of
           Inl err \<Rightarrow> (Some err, [query])
         | Inr focus \<Rightarrow>
             if focus \<noteq> xw w then (None, [query])
             else
               (case TranslateCoordinatesReply srv (sent xc @ [query, translate]) of
                  Inl err \<Rightarrow> (Some err, [query, translate])
                | Inr (dstX, dstY) \<Rightarrow>
                    (let warp = WarpPointerChecked 0 (DefaultScreenRoot xc) 0 0 0 0 dstX dstY
                     in (Check srv (sent xc @ [query, translate, warp]),
                         [query, translate, warp]))))"
  by (simp add: WarpMouse_def translateToScreen_def send_def Let_def
      split: sum.split prod.split option.split)

text \<open>
  With the focus on the window and a server that accepts, the pointer is warped to the
  translated point; with a server whose replies fail, the error comes back after the
  focus query alone.
\<close>

theorem WarpMouse_focus_translate_warp_witness:
  "(fst (WarpMouse accepting_server example_window (3, 4) example_conn),
    drop (length (sent example_conn))
      (sent (snd (WarpMouse accepting_server example_window (3, 4) example_conn)))) =
     (None, [GetInputFocus, TranslateCoordinates 10 1 3 4,
             WarpPointerChecked 0 1 0 0 0 0 100 200]) \<and>
   (fst (WarpMouse rejecting_server example_window (3, 4) example_conn),
    drop (length (sent example_conn))
      (sent (snd (WarpMouse rejecting_server example_window (3, 4) example_conn)))) =
     (Some (XError 3), [GetInputFocus])"
  using
    WarpMouse_focus_translate_warp
      [where srv = accepting_server and w = example_window and p = "(3, 4)" and xc = example_conn]
    WarpMouse_focus_translate_warp
      [where srv = rejecting_server and w = example_window and p = "(3, 4)" and xc = example_conn]
  by (simp add: accepting_server_def rejecting_server_def example_window_def example_conn_def)

text \<open>
  C6. \<^verbatim>\<open>AbsolutePosition\<close> returns the destination coordinates of the reply to its
  coordinate translation when the reply succeeds, and (0, 0) when the reply fails with
  whatever error; its result has no error part.
\<close>

theorem AbsolutePosition_lossy:
  "fst (AbsolutePosition srv w xc) =
     (case TranslateCoordinatesReply srv
             (sent xc @ [TranslateCoordinates (xw w) (xsiRoot (s w)) 0 0]) of
        Inr (dstX, dstY) \<Rightarrow> (sint dstX, sint dstY)
      | Inl err \<Rightarrow> (0, 0))"
  by (simp add: AbsolutePosition_def send_def Let_def split: sum.split prod.split)

theorem AbsolutePosition_lossy_witness:
  "fst (AbsolutePosition accepting_server example_window example_conn) = (100, 200) \<and>
   fst (AbsolutePosition rejecting_server example_window example_conn) = (0, 0)"
  using AbsolutePosition_lossy [of accepting_server example_window example_conn]
    AbsolutePosition_lossy [of rejecting_server example_window example_conn]
  by (simp add: accepting_server_def rejecting_server_def)

text \<open>
  C7, as the code has it. \<^verbatim>\<open>Raise\<close> returns success on every invocation, whatever the
  server answers to its two checked requests, the client message sent to the root window
  and the map-window request that follows it.
\<close>

theorem Raise_always_succeeds:
  "fst (Raise srv w xc) = None \<and>
   sent (snd (Raise srv w xc)) = sent xc @
     [SendEventChecked False (DefaultScreenRoot xc)
        (EventMaskSubstructureRedirect OR EventMaskSubstructureNotify)
        \<lparr>Format = 32, Window = xw w, Type = atomNetActiveWindow (s w),
         Data32 = [0, TimeCurrentTime, 0, 0, 0]\<rparr>,
      MapWindowChecked (xw w)]"
  by (simp add: Raise_def send_def Let_def)

text \<open>
  C7, as the claim has it, fails: the server rejects the client message with error 3 and
  \<^verbatim>\<open>Raise\<close> returns success.
\<close>

theorem Raise_send_rejected_counterexample:
  "Check rejecting_server
     (sent example_conn @
        [SendEventChecked False (DefaultScreenRoot example_conn)
           (EventMaskSubstructureRedirect OR EventMaskSubstructureNotify)
           \<lparr>Format = 32, Window = xw example_window,
            Type = atomNetActiveWindow (s example_window),
            Data32 = [0, TimeCurrentTime, 0, 0, 0]\<rparr>]) = Some (XError 3) \<and>
   fst (Raise rejecting_server example_window example_conn) = None"
  by (simp add: Raise_def send_def Let_def rejecting_server_def)

text \<open>
  C8. \<^verbatim>\<open>SetTitle\<close> sends one request, a checked property change that replaces the
  property named by the title atom of the screen, of the UTF-8 string type of the
  screen, in format 8, with the bytes of the title, and returns the result of the check
  of that request.
\<close>

theorem SetTitle_one_checked_request:
  "fst (SetTitle srv w title xc) =
     Check srv (sent xc @
       [ChangePropertyChecked PropModeReplace (xw w) (atomNetWMName (s w)) (atomUTF8String (s w))
          8 (of_nat (length title)) (map of_char title)]) \<and>
   sent (snd (SetTitle srv w title xc)) = sent xc @
       [ChangePropertyChecked PropModeReplace (xw w) (atomNetWMName (s w)) (atomUTF8String (s w))
          8 (of_nat (length title)) (map of_char title)]"
  by (simp add: SetTitle_def send_def Let_def)

theorem SetTitle_one_checked_request_witness:
  "fst (SetTitle accepting_server example_window ''Example'' example_conn) = None \<and>
   fst (SetTitle rejecting_server example_window ''Example'' example_conn) = Some (XError 3) \<and>
   sent (snd (SetTitle accepting_server example_window ''Example'' example_conn)) =
     [Sync, ChangePropertyChecked 0 10 41 42 8 7 [69, 120, 97, 109, 112, 108, 101]]"
  using SetTitle_one_checked_request [of accepting_server example_window "''Example''" example_conn]
    SetTitle_one_checked_request [of rejecting_server example_window "''Example''" example_conn]
  by (simp add: accepting_server_def rejecting_server_def example_window_def example_screen_def
      example_conn_def PropModeReplace_def)

text \<open>
  C10. \<^verbatim>\<open>SetCursor\<close> returns success for every cursor token. When the cursor cache
  holds the token it sends one attribute change with the cached cursor and never asks
  the server for the outcome; when the cache does not hold it, it sends nothing.
\<close>

theorem SetCursor_always_succeeds:
  "fst (SetCursor w cursor xc) = None \<and>
   sent (snd (SetCursor w cursor xc)) = sent xc @
     (case cursorCache (s w) cursor of
        Some cursorId \<Rightarrow> [ChangeWindowAttributes (xw w) CwCursor [cursorId]]
      | None \<Rightarrow> [])"
  by (simp add: SetCursor_def send_def split: option.split)

theorem SetCursor_always_succeeds_witness:
  "sent (snd (SetCursor example_window 0 example_conn)) =
     [Sync, ChangeWindowAttributes 10 16384 [70]] \<and>
   sent (snd (SetCursor example_window 1 example_conn)) = [Sync]"
  using SetCursor_always_succeeds [of example_window 0 example_conn]
    SetCursor_always_succeeds [of example_window 1 example_conn]
  by (simp add: example_window_def example_screen_def example_conn_def CwCursor_def)

subsection \<open>Release\<close>

text \<open>Sums over the threads when one thread moves.\<close>

lemma sum_list_map_update:
  "i < length xs \<Longrightarrow> sum_list (map f (xs[i := y])) + f (xs ! i) = sum_list (map f xs) + f y"
  for f :: "'a \<Rightarrow> nat"
proof (induction xs arbitrary: i)
  case Nil
  then show ?case by simp
next
  case (Cons x xs)
  then show ?case by (cases i) auto
qed

lemma nth_le_sum_list: "i < length xs \<Longrightarrow> f (xs ! i) \<le> sum_list (map f xs)"
  for f :: "'a \<Rightarrow> nat"
proof (induction xs arbitrary: i)
  case Nil
  then show ?case by simp
next
  case (Cons x xs)
  then show ?case by (cases i) (auto simp: trans_le_add2)
qed

lemma freed_le_won: "freed t \<le> 3 * won t"
  by (cases t rule: freed.cases) auto

lemma pending_le_holds: "pending t \<le> holds t"
  by (cases t rule: pending.cases) auto

lemma sum_pending_le_holds: "sum_list (map pending ts) \<le> sum_list (map holds ts)"
  by (induction ts) (auto simp: pending_le_holds add_mono)

lemma sum_freed_le_won: "sum_list (map freed ts) \<le> 3 * sum_list (map won ts)"
proof (induction ts)
  case Nil
  then show ?case by simp
next
  case (Cons t ts)
  then show ?case using freed_le_won [of t] by simp
qed

text \<open>When exactly one thread has won, it alone has freed anything.\<close>

lemma only_winner:
  assumes "i < length ts" and "won (ts ! i) = 1" and "sum_list (map won ts) = 1"
  shows "sum_list (map freed ts) = freed (ts ! i)"
proof -
  let ?z = "(L_Lock, False)"
  have w: "sum_list (map won (ts[i := ?z])) + won (ts ! i) = sum_list (map won ts) + won ?z"
    using assms(1) by (rule sum_list_map_update)
  then have "sum_list (map won (ts[i := ?z])) = 0"
    using assms(2,3) by simp
  then have "sum_list (map freed (ts[i := ?z])) = 0"
    using sum_freed_le_won [of "ts[i := ?z]"] by arith
  moreover have "sum_list (map freed (ts[i := ?z])) + freed (ts ! i) = sum_list (map freed ts)"
    using sum_list_map_update [OF assms(1), of freed ?z] by simp
  ultimately show ?thesis by arith
qed

lemma ok_mono: "ok rel t \<Longrightarrow> ok True t"
  by (cases "(rel, t)" rule: ok.cases) auto

lemma list_all_update: "list_all P xs \<Longrightarrow> P y \<Longrightarrow> list_all P (xs[i := y])"
  by (induction xs arbitrary: i) (auto split: nat.split)

lemma list_all_nth: "list_all P xs \<Longrightarrow> i < length xs \<Longrightarrow> P (xs ! i)"
  by (simp add: list_all_length)

lemma list_all_ok_mono: "list_all (ok rel) ts \<Longrightarrow> list_all (ok True) ts"
  by (induction ts) (auto simp: ok_mono)

lemma sum_upd:
  "i < length xs \<Longrightarrow> sum_list (map f (xs[i := y])) = sum_list (map f xs) + f y - f (xs ! i)"
  for f :: "'a \<Rightarrow> nat"
  using sum_list_map_update [of i xs f y] by arith

text \<open>Every step of every thread keeps the invariant.\<close>

lemma inv_step:
  assumes "release_inv w0 xc0 c"
  shows "release_inv w0 xc0 (step i c)"
proof (cases "i < length (threads c)")
  case False
  then show ?thesis using assms by (simp add: step_def)
next
  case True
  obtain l r where t: "threads c ! i = (l, r)"
    by (cases "threads c ! i")
  note le = nth_le_sum_list [OF True]
  have okt: "ok (released (win (shared c))) (l, r)"
    using assms True t list_all_nth [of "ok (released (win (shared c)))" "threads c" i]
    by (simp add: release_inv_def)
  show ?thesis
  proof (cases l)
    case L_Lock
    then show ?thesis
      using assms t True
      by (auto simp add: release_inv_def step_def list_all_update sum_upd
          simp del: sum_list_eq_0_iff)
  next
    case L_Read
    then show ?thesis
      using assms t True le [of holds]
      by (auto simp add: release_inv_def step_def list_all_update sum_upd
          simp del: sum_list_eq_0_iff)
  next
    case L_Write
    then show ?thesis
      using assms t True okt le [of holds] le [of pending] sum_pending_le_holds [of "threads c"]
        list_all_ok_mono [of "released (win (shared c))" "threads c"]
      by (auto simp add: release_inv_def step_def list_all_update sum_upd
          simp del: sum_list_eq_0_iff split: if_splits)
  next
    case L_Unlock
    then show ?thesis
      using assms t True okt le [of holds] le [of won]
      by (auto simp add: release_inv_def step_def list_all_update sum_upd
          simp del: sum_list_eq_0_iff split: if_splits)
  next
    case L_Check
    then show ?thesis
      using assms t True okt le [of holds] le [of won]
      by (auto simp add: release_inv_def step_def list_all_update sum_upd
          simp del: sum_list_eq_0_iff split: if_splits)
  next
    case L_FreePicture
    then show ?thesis
      using assms t True okt le [of won] only_winner [OF True]
      by (auto simp add: release_inv_def step_def list_all_update sum_upd send_def frees_def
          simp del: sum_list_eq_0_iff split: if_splits)
  next
    case L_FreeGC
    then show ?thesis
      using assms t True okt le [of won] only_winner [OF True]
      by (auto simp add: release_inv_def step_def list_all_update sum_upd send_def frees_def
          simp del: sum_list_eq_0_iff split: if_splits)
  next
    case L_DestroyWindow
    then show ?thesis
      using assms t True okt le [of won] only_winner [OF True]
      by (auto simp add: release_inv_def step_def list_all_update sum_upd send_def frees_def
          simp del: sum_list_eq_0_iff split: if_splits)
  next
    case L_Return
    show ?thesis
    proof -
      have "step i c = c"
        using L_Return t True list_update_id [of "threads c" i] by (simp add: step_def)
      then show ?thesis
        using assms by simp
    qed
  qed
qed

lemma inv_calls: "\<not> released w \<Longrightarrow> release_inv w xc (calls n w xc)"
proof -
  assume r: "\<not> released w"
  have z: "sum_list (map f (replicate n (L_Lock, False))) = 0" if "f (L_Lock, False) = 0"
    for f :: "label \<times> bool \<Rightarrow> nat"
    using that by (induction n) auto
  have "w\<lparr>released := False\<rparr> = w"
    using r by simp
  moreover have "xc\<lparr>sent := sent xc\<rparr> = xc"
    by simp
  moreover have "list_all (ok False) (replicate n (L_Lock, False))"
    by (induction n) auto
  ultimately show ?thesis
    using r by (simp add: release_inv_def calls_def z)
qed

lemma inv_run: "release_inv w0 xc0 c \<Longrightarrow> release_inv w0 xc0 (run sched c)"
  unfolding run_def by (induction sched arbitrary: c) (auto simp: inv_step)

lemma length_threads_step: "length (threads (step i c)) = length (threads c)"
  by (simp add: step_def split: prod.split)

lemma length_threads_run: "length (threads (run sched c)) = length (threads c)"
  unfolding run_def by (induction sched arbitrary: c) (auto simp: length_threads_step)

text \<open>When every call has returned.\<close>

lemma returned_sums:
  assumes "list_all (\<lambda>t. fst t = L_Return) ts"
  shows "sum_list (map holds ts) = 0"
    and "sum_list (map won ts) = length (filter (\<lambda>t. \<not> snd t) ts)"
    and "sum_list (map freed ts) = 3 * sum_list (map won ts)"
  using assms by (induction ts) auto

lemma returned_released:
  assumes "list_all (\<lambda>t. fst t = L_Return) ts" and "list_all (ok rel) ts"
    and "sum_list (map won ts) = (if rel then 1 else 0)" and "ts \<noteq> []"
  shows rel
proof (rule ccontr)
  assume n: "\<not> rel"
  obtain l r ts' where ts: "ts = (l, r) # ts'"
    using assms(4) by (cases ts) auto
  then have "l = L_Return" and "won (l, r) = 0"
    using assms(1,3) n by auto
  then have r
    by (auto split: if_splits)
  then show False
    using assms(2) n ts \<open>l = L_Return\<close> by simp
qed

lemma inv_returned:
  assumes "release_inv w0 xc0 c" and "list_all (\<lambda>t. fst t = L_Return) (threads c)"
    and "threads c \<noteq> []" and "\<not> released w0"
  shows "shared c = \<lparr>win = w0\<lparr>released := True\<rparr>, mu = False,
                      conn = xc0\<lparr>sent := sent xc0 @ frees w0\<rparr>\<rparr>"
    and "length (filter (\<lambda>t. \<not> snd t) (threads c)) = 1"
proof -
  note s = returned_sums [OF assms(2)]
  have rel: "released (win (shared c))"
    using assms(1) returned_released [OF assms(2) _ _ assms(3), of "released (win (shared c))"]
    by (simp add: release_inv_def)
  then have w1: "sum_list (map won (threads c)) = 1"
    using assms(1) by (simp add: release_inv_def)
  then show "length (filter (\<lambda>t. \<not> snd t) (threads c)) = 1"
    using s(2) by simp
  have m: "\<not> mu (shared c)"
    using assms(1) s(1) by (simp add: release_inv_def split: if_splits)
  have "(win (shared c))\<lparr>released := False\<rparr> = w0"
    using assms(1) by (simp add: release_inv_def)
  then have "(win (shared c))\<lparr>released := False, released := True\<rparr> = w0\<lparr>released := True\<rparr>"
    by simp
  then have w: "win (shared c) = w0\<lparr>released := True\<rparr>"
    using rel by (cases "win (shared c)") auto
  have "conn (shared c) = xc0\<lparr>sent := sent xc0 @ take 3 (frees w0)\<rparr>"
    using assms(1) s(3) w1 by (simp add: release_inv_def)
  then have "conn (shared c) = xc0\<lparr>sent := sent xc0 @ frees w0\<rparr>"
    by (simp add: frees_def)
  then show "shared c = \<lparr>win = w0\<lparr>released := True\<rparr>, mu = False,
                      conn = xc0\<lparr>sent := sent xc0 @ frees w0\<rparr>\<rparr>"
    using w m by (cases "shared c") simp
qed

text \<open>Calls one after the other.\<close>

lemma Release_first:
  "\<not> released w \<Longrightarrow> Release (w, xc) = (w\<lparr>released := True\<rparr>, xc\<lparr>sent := sent xc @ frees w\<rparr>)"
  by (simp add: Release_def send_def frees_def Let_def)

lemma Release_again: "released w \<Longrightarrow> Release (w, xc) = (w, xc)"
  by (simp add: Release_def Let_def)

lemma Release_funpow:
  "\<not> released w \<Longrightarrow> (Release ^^ Suc n) (w, xc) = (w\<lparr>released := True\<rparr>, xc\<lparr>sent := sent xc @ frees w\<rparr>)"
  by (induction n) (simp_all add: Release_first Release_again)

text \<open>A call that runs alone, without another call moving in between, does what Release does.\<close>

lemma run_alone:
  assumes "i < length ts" and "ts ! i = (L_Lock, r)" and "\<not> mu sh"
  shows "run (replicate 8 i) \<lparr>threads = ts, shared = sh\<rparr> =
           \<lparr>threads = ts[i := (L_Return, released (win sh))],
            shared = (case Release (win sh, conn sh) of (w', xc') \<Rightarrow> sh\<lparr>win := w', conn := xc'\<rparr>)\<rparr>"
  using assms
  by (simp add: run_def step_def Release_def Let_def eval_nat_numeral)

lemma run_append: "run (xs @ ys) c = run ys (run xs c)"
  by (simp add: run_def)

text \<open>
  The calls can always all return: under the schedule that runs them one after the other,
  the first \<open>k\<close> calls have returned and the others have not started.
\<close>

lemma run_in_turn:
  "k \<le> n \<Longrightarrow>
     \<exists>rs sh. length rs = k \<and> \<not> mu sh \<and>
       run (concat (map (replicate 8) [0..<k])) (calls n w xc) =
         \<lparr>threads = map (Pair L_Return) rs @ replicate (n - k) (L_Lock, False), shared = sh\<rparr>"
proof (induction k)
  case 0
  then show ?case
    by (simp add: run_def calls_def)
next
  case (Suc k)
  then obtain rs sh where rs: "length rs = k" and sh: "\<not> mu sh"
    and r: "run (concat (map (replicate 8) [0..<k])) (calls n w xc) =
         \<lparr>threads = map (Pair L_Return) rs @ replicate (n - k) (L_Lock, False), shared = sh\<rparr>"
    by auto
  let ?ts = "map (Pair L_Return) rs @ replicate (n - k) (L_Lock, False)"
  let ?b = "released (win sh)"
  have rep: "replicate (n - k) (L_Lock, False) = (L_Lock, False) # replicate (n - Suc k) (L_Lock, False)"
    using Suc.prems by (cases "n - k") auto
  have len: "k < length ?ts"
    using Suc.prems rs by simp
  have at: "?ts ! k = (L_Lock, False)"
    using rs rep by (simp add: nth_append)
  have upd: "?ts[k := (L_Return, ?b)] =
      map (Pair L_Return) (rs @ [?b]) @ replicate (n - Suc k) (L_Lock, False)"
    using rs rep by (simp add: list_update_append)
  have "run (concat (map (replicate 8) [0..<Suc k])) (calls n w xc) =
      run (replicate 8 k) \<lparr>threads = ?ts, shared = sh\<rparr>"
    by (simp add: run_append r)
  also have "\<dots> = \<lparr>threads = ?ts[k := (L_Return, ?b)],
      shared = (case Release (win sh, conn sh) of (w', xc') \<Rightarrow> sh\<lparr>win := w', conn := xc'\<rparr>)\<rparr>"
    using len at sh by (rule run_alone)
  finally have "run (concat (map (replicate 8) [0..<Suc k])) (calls n w xc) =
      \<lparr>threads = map (Pair L_Return) (rs @ [?b]) @ replicate (n - Suc k) (L_Lock, False),
       shared = (case Release (win sh, conn sh) of (w', xc') \<Rightarrow> sh\<lparr>win := w', conn := xc'\<rparr>)\<rparr>"
    unfolding upd .
  moreover have "\<not> mu (case Release (win sh, conn sh) of (w', xc') \<Rightarrow> sh\<lparr>win := w', conn := xc'\<rparr>)"
    using sh by (simp split: prod.split)
  moreover have "length (rs @ [?b]) = Suc k"
    using rs by simp
  ultimately show ?case
    by blast
qed

lemma all_can_return:
  "list_all (\<lambda>t. fst t = L_Return) (threads (run (concat (map (replicate 8) [0..<n])) (calls n w xc)))"
proof -
  obtain rs sh where "run (concat (map (replicate 8) [0..<n])) (calls n w xc) =
         \<lparr>threads = map (Pair L_Return) rs @ replicate (n - n) (L_Lock, False), shared = sh\<rparr>"
    using run_in_turn [of n n w xc] by auto
  then show ?thesis
    by (simp add: list_all_iff)
qed

text \<open>
  C1. Take a window that is not released and \<open>n \<ge> 1\<close> calls of \<^verbatim>\<open>Release\<close>. Run one
  after the other, they leave the flag set and have sent the three frees once, the
  picture, then the graphics context, then the window; one more call changes nothing.
  Run at the same time, under any schedule: what has been sent at any moment is what was
  sent before followed by a beginning of these three frees; the schedule that runs the
  calls in turn lets all of them return; and whenever all of them have returned, the flag
  is set, the mutex is free, the three frees have been sent once in that order, and
  exactly one call has read the flag as false.
\<close>

theorem Release_frees_exactly_once:
  assumes "\<not> released w" and "1 \<le> n"
  shows "(Release ^^ n) (w, xc) = (w\<lparr>released := True\<rparr>, xc\<lparr>sent := sent xc @ frees w\<rparr>) \<and>
         Release ((Release ^^ n) (w, xc)) = (Release ^^ n) (w, xc) \<and>
         (\<exists>k. conn (shared (run sched (calls n w xc))) =
                xc\<lparr>sent := sent xc @ take k (frees w)\<rparr>) \<and>
         list_all (\<lambda>t. fst t = L_Return)
           (threads (run (concat (map (replicate 8) [0..<n])) (calls n w xc))) \<and>
         (list_all (\<lambda>t. fst t = L_Return) (threads (run sched (calls n w xc))) \<longrightarrow>
            shared (run sched (calls n w xc)) =
              \<lparr>win = w\<lparr>released := True\<rparr>, mu = False,
               conn = xc\<lparr>sent := sent xc @ frees w\<rparr>\<rparr> \<and>
            length (filter (\<lambda>t. \<not> snd t) (threads (run sched (calls n w xc)))) = 1)"
proof -
  obtain m where n: "n = Suc m"
    using assms(2) by (cases n) auto
  have seq: "(Release ^^ n) (w, xc) = (w\<lparr>released := True\<rparr>, xc\<lparr>sent := sent xc @ frees w\<rparr>)"
    unfolding n using assms(1) by (rule Release_funpow)
  have again: "Release ((Release ^^ n) (w, xc)) = (Release ^^ n) (w, xc)"
    unfolding seq by (simp add: Release_again)
  have i: "release_inv w xc (run sched (calls n w xc))"
    using assms(1) by (intro inv_run inv_calls)
  then have pre: "\<exists>k. conn (shared (run sched (calls n w xc))) =
      xc\<lparr>sent := sent xc @ take k (frees w)\<rparr>"
    unfolding release_inv_def by blast
  have ne: "threads (run sched (calls n w xc)) \<noteq> []"
    using length_threads_run [of sched "calls n w xc"] n by (auto simp: calls_def)
  show ?thesis
    using seq again pre all_can_return [of n w xc] inv_returned [OF i _ ne assms(1)] by blast
qed

text \<open>
  Two calls on the example window. The first call takes the mutex, the second waits, the
  first sets the flag and unlocks, the second runs to its return, and the first sends the
  three frees.
\<close>

theorem Release_frees_exactly_once_witness:
  "\<not> released example_window \<and> (1::nat) \<le> 2 \<and>
   (Release ^^ 2) (example_window, example_conn) =
     (example_window\<lparr>released := True\<rparr>,
      example_conn\<lparr>sent := [Sync, FreePicture 12, FreeGC 11, DestroyWindow 10]\<rparr>) \<and>
   threads (run [0, 1, 0, 0, 0, 1, 1, 1, 1, 1, 0, 0, 1, 0, 0]
              (calls 2 example_window example_conn)) =
     [(L_Return, False), (L_Return, True)] \<and>
   shared (run [0, 1, 0, 0, 0, 1, 1, 1, 1, 1, 0, 0, 1, 0, 0]
             (calls 2 example_window example_conn)) =
     \<lparr>win = example_window\<lparr>released := True\<rparr>, mu = False,
      conn = example_conn\<lparr>sent := [Sync, FreePicture 12, FreeGC 11, DestroyWindow 10]\<rparr>\<rparr>"
proof -
  have r: "\<not> released example_window"
    by (simp add: example_window_def)
  have t: "threads (run [0, 1, 0, 0, 0, 1, 1, 1, 1, 1, 0, 0, 1, 0, 0]
                     (calls 2 example_window example_conn)) =
     [(L_Return, False), (L_Return, True)]"
    using r by (simp add: run_def step_def calls_def eval_nat_numeral)
  show ?thesis
    using r t Release_frees_exactly_once [OF r, of 2 example_conn
        "[0, 1, 0, 0, 0, 1, 1, 1, 1, 1, 0, 0, 1, 0, 0]"]
    by (simp add: frees_def example_window_def example_conn_def)
qed

end
